theory Spec2Isabelle
  imports Main "HOL-Library.AList"
begin

section \<open>The real-time hub of InstaCordChat: data model\<close>

text \<open>
  The development embeds the WebSocket part of the server's route file
  (\<open>src/unnamed/part_001\<close>: the module-level maps \<open>clients\<close> and \<open>userChannels\<close> of lines
  15-16, the functions \<open>broadcastToChannel\<close> and \<open>broadcastToAll\<close> of lines 18-39, and the
  \<open>message\<close> and \<open>close\<close> handlers registered for each connection in lines 519-703)
  together with the storage methods of \<open>src/server/storage.ts\<close> those handlers call.

  Sockets are handles (natural numbers). A JavaScript \<open>Map\<close> is an association list with
  the map's own discipline: \<open>set\<close> overwrites an existing key in place and appends a new
  one (\<open>AList.update\<close>), \<open>delete\<close> removes the key (\<open>AList.delete\<close>), \<open>get\<close> is
  \<open>map_of\<close>, and iteration follows insertion order.
\<close>

type_synonym ws = nat

datatype ready_state = OPEN | CLOSING | CLOSED

text \<open>
  Rows of the tables in \<open>shared/schema.ts\<close>; only the columns the handlers read or write
  are kept. A nullable column and an optional payload field are \<open>string option\<close>.
\<close>

record user_row =
  user_id :: string
  firstName :: "string option"

record insert_message =
  channelId :: string
  senderId :: "string option"
  content :: "string option"
  replyToId :: "string option"

record message_row =
  msg_id :: string
  msg_channelId :: string
  msg_senderId :: string
  msg_content :: "string option"
  msg_replyToId :: "string option"

record reaction_row =
  r_messageId :: string
  r_userId :: string
  r_emoji :: string

record message_with_sender = message_row +
  sender :: user_row
  reactions :: "(reaction_row \<times> user_row) list"

record insert_reaction =
  ir_messageId :: string
  ir_userId :: "string option"
  ir_emoji :: "string option"

record storage =
  users :: "user_row list"
  channels :: "string list"
  channelMembers :: "(string \<times> string) list"
  messages :: "message_row list"
  reactionRows :: "reaction_row list"

text \<open>
  What a handler can throw: \<open>JSON.parse\<close> on a malformed frame, a property read on an
  absent payload, a rejected database statement, and the explicit throw of
  \<open>createMessage\<close>.
\<close>

datatype exn = SyntaxError | TypeError | DbError | SenderNotFound

datatype action = Add | Remove

datatype out_event =
    OnlineUsers "string list"
  | UserOnline string
  | UserOffline string
  | TypingStart "string option" string "string option"
  | TypingStop "string option" string
  | NewMessage message_with_sender
  | MessageReaction string "string option" "string option" action

text \<open>
  An inbound frame is the text handed to \<open>JSON.parse\<close>. \<open>Malformed\<close> is a text on which
  parsing (or reading \<open>message.type\<close>) throws; otherwise the frame has a type tag and a
  payload, which is absent when \<open>message.payload\<close> is undefined.
\<close>

record payload =
  p_userId :: "string option"
  p_channelId :: "string option"
  p_content :: "string option"
  p_replyToId :: "string option"
  p_messageId :: "string option"
  p_emoji :: "string option"

datatype frame = Malformed | Frame string "payload option"

text \<open>
  A handler invocation suspended at an \<open>await\<close>: every await of the message handler is a
  storage call, and the task records the call and the locals in scope.
\<close>

datatype task =
    AuthGetUser ws "string option"
  | AuthGetUserChannels ws string
  | TypingGetUser ws string string
  | SendIsMember ws string string "string option" "string option"
  | SendCreate ws insert_message
  | ReactGetMessage ws action string "string option"
  | ReactMutate ws action string string "string option" "string option"

datatype log_entry = Warn string | Error string exn

record hub =
  clients :: "(string \<times> ws) list"
  userChannels :: "(string \<times> string set) list"
  wsUserMap :: "(ws \<times> string) list"
  userIdVar :: "ws \<Rightarrow> string option"
  authenticatedUserId :: "ws \<Rightarrow> string option"
  readyState :: "ws \<Rightarrow> ready_state"
  sent :: "(ws \<times> out_event) list"
  closeCalls :: "(ws \<times> nat \<times> string) list"
  console :: "log_entry list"
  db :: storage
  tasks :: "task list"

text \<open>JavaScript truthiness of a value that is a string, \<open>null\<close> or \<open>undefined\<close>.\<close>

definition truthy :: "string option \<Rightarrow> bool" where
  "truthy v = (case v of None \<Rightarrow> False | Some s \<Rightarrow> s \<noteq> [])"

section \<open>Storage methods\<close>

text \<open>
  The methods of \<open>DatabaseStorage\<close> the handlers call (\<open>getUser\<close> at line 77 of
  \<open>storage.ts\<close>, \<open>getUserChannels\<close> at 157, \<open>isChannelMember\<close> at 242, \<open>getMessage\<close> at
  251, \<open>createMessage\<close> at 297, \<open>addReaction\<close> at 324, \<open>removeReaction\<close> at 343), each
  as one step on the tables. Of \<open>getUserChannels\<close> the handler uses the channels' ids only.
  \<open>getUser\<close> selects the row whose id equals the argument; an argument that is not a
  string matches no row.
\<close>

definition getUser :: "storage \<Rightarrow> string option \<Rightarrow> user_row option" where
  "getUser d i = (case i of None \<Rightarrow> None | Some k \<Rightarrow> find (\<lambda>u. user_id u = k) (users d))"

definition getUserChannels :: "storage \<Rightarrow> string \<Rightarrow> string list" where
  "getUserChannels d userId =
     (let channelIds = map fst (filter (\<lambda>m. snd m = userId) (channelMembers d))
      in if channelIds = [] then [] else filter (\<lambda>c. c \<in> set channelIds) (channels d))"

definition isChannelMember :: "storage \<Rightarrow> string \<Rightarrow> string \<Rightarrow> bool" where
  "isChannelMember d c userId = ((c, userId) \<in> set (channelMembers d))"

definition getMessage :: "storage \<Rightarrow> string \<Rightarrow> message_row option" where
  "getMessage d i = find (\<lambda>m. msg_id m = i) (messages d)"

text \<open>
  The insert of \<open>createMessage\<close> (\<open>db.insert(messages).values(messageData).returning()\<close>)
  is rejected when it breaks the schema: the generated primary key \<open>g\<close> is taken, the
  channel or the sender is not a row of its table, or the sender is null.
\<close>

definition insertMessage ::
  "string \<Rightarrow> storage \<Rightarrow> insert_message \<Rightarrow> (message_row \<times> storage) option" where
  "insertMessage g d messageData =
     (case senderId messageData of
        None \<Rightarrow> None
      | Some sid \<Rightarrow>
          if g \<in> set (map msg_id (messages d)) \<or> channelId messageData \<notin> set (channels d)
             \<or> sid \<notin> set (map user_id (users d))
          then None
          else Some (\<lparr>msg_id = g, msg_channelId = channelId messageData,
                       msg_senderId = sid, msg_content = content messageData,
                       msg_replyToId = replyToId messageData\<rparr>,
                     d\<lparr>messages := messages d @
                        [\<lparr>msg_id = g, msg_channelId = channelId messageData,
                          msg_senderId = sid, msg_content = content messageData,
                          msg_replyToId = replyToId messageData\<rparr>]\<rparr>))"

definition createMessage ::
  "string \<Rightarrow> storage \<Rightarrow> insert_message \<Rightarrow> (exn + message_with_sender) \<times> storage" where
  "createMessage g d messageData =
     (case insertMessage g d messageData of
        None \<Rightarrow> (Inl DbError, d)
      | Some (message, d') \<Rightarrow>
          (case getUser d' (Some (msg_senderId message)) of
             None \<Rightarrow> (Inl SenderNotFound, d')
           | Some s \<Rightarrow>
               (Inr \<lparr>msg_id = msg_id message, msg_channelId = msg_channelId message,
                     msg_senderId = msg_senderId message, msg_content = msg_content message,
                     msg_replyToId = msg_replyToId message, sender = s, reactions = []\<rparr>,
                d')))"

text \<open>
  \<open>addReaction\<close> returns the row that is already there, if any; otherwise it inserts,
  and the insert is rejected when the user id or the emoji is null or when the message or
  the user is not a row of its table. \<open>removeReaction\<close> deletes the matching rows.
\<close>

definition addReaction :: "storage \<Rightarrow> insert_reaction \<Rightarrow> exn option \<times> storage" where
  "addReaction d reactionData =
     (case (ir_userId reactionData, ir_emoji reactionData) of
        (Some u, Some e) \<Rightarrow>
          let row = \<lparr>r_messageId = ir_messageId reactionData, r_userId = u, r_emoji = e\<rparr>
          in if row \<in> set (reactionRows d) then (None, d)
             else if ir_messageId reactionData \<notin> set (map msg_id (messages d))
                     \<or> u \<notin> set (map user_id (users d))
             then (Some DbError, d)
             else (None, d\<lparr>reactionRows := reactionRows d @ [row]\<rparr>)
      | _ \<Rightarrow> (Some DbError, d))"

definition removeReaction ::
  "storage \<Rightarrow> string \<Rightarrow> string option \<Rightarrow> string option \<Rightarrow> storage" where
  "removeReaction d messageId userId emoji =
     d\<lparr>reactionRows :=
         filter (\<lambda>r. \<not> (r_messageId r = messageId \<and> Some (r_userId r) = userId
                          \<and> Some (r_emoji r) = emoji)) (reactionRows d)\<rparr>"

section \<open>The transport and the two routers\<close>

text \<open>
  \<open>ws.send\<close> writes a frame only while the socket is open; \<open>sent\<close> lists the frames
  written, oldest first. \<open>ws.close(code, reason)\<close> starts the closing handshake of an
  open socket; \<open>closeCalls\<close> lists the calls.
\<close>

definition ws_send :: "hub \<Rightarrow> ws \<Rightarrow> out_event \<Rightarrow> hub" where
  "ws_send s client message =
     (if readyState s client = OPEN then s\<lparr>sent := sent s @ [(client, message)]\<rparr> else s)"

definition ws_close :: "hub \<Rightarrow> ws \<Rightarrow> nat \<Rightarrow> string \<Rightarrow> hub" where
  "ws_close s w code reason =
     s\<lparr>readyState := (readyState s)(w := (if readyState s w = OPEN then CLOSING
                                             else readyState s w)),
       closeCalls := closeCalls s @ [(w, code, reason)]\<rparr>"

definition console_warn :: "hub \<Rightarrow> string \<Rightarrow> hub" where
  "console_warn s text = s\<lparr>console := console s @ [Warn text]\<rparr>"

text \<open>The \<open>for\<close> loop of \<open>broadcastToChannel\<close> over the user ids it has collected.\<close>

fun channel_loop :: "hub \<Rightarrow> out_event \<Rightarrow> string option \<Rightarrow> string list \<Rightarrow> hub" where
  "channel_loop s message excludeUserId [] = s"
| "channel_loop s message excludeUserId (userId # rest) =
     (if Some userId = excludeUserId then channel_loop s message excludeUserId rest
      else case map_of (clients s) userId of
             None \<Rightarrow> channel_loop s message excludeUserId rest
           | Some client \<Rightarrow>
               if readyState s client = OPEN
               then channel_loop (ws_send s client message) message excludeUserId rest
               else channel_loop s message excludeUserId rest)"

definition channelUsers :: "hub \<Rightarrow> string \<Rightarrow> string list" where
  "channelUsers s c = map fst (filter (\<lambda>(_, chans). c \<in> chans) (userChannels s))"

definition broadcastToChannel ::
  "hub \<Rightarrow> string \<Rightarrow> out_event \<Rightarrow> string option \<Rightarrow> hub" where
  "broadcastToChannel s c message excludeUserId =
     channel_loop s message excludeUserId (channelUsers s c)"

text \<open>The \<open>for\<close> loop of \<open>broadcastToAll\<close> over the entries of \<open>clients\<close>.\<close>

fun all_loop :: "hub \<Rightarrow> out_event \<Rightarrow> string option \<Rightarrow> (string \<times> ws) list \<Rightarrow> hub" where
  "all_loop s message excludeUserId [] = s"
| "all_loop s message excludeUserId ((userId, client) # rest) =
     (if Some userId = excludeUserId then all_loop s message excludeUserId rest
      else if readyState s client = OPEN
           then all_loop (ws_send s client message) message excludeUserId rest
           else all_loop s message excludeUserId rest)"

definition broadcastToAll :: "hub \<Rightarrow> out_event \<Rightarrow> string option \<Rightarrow> hub" where
  "broadcastToAll s message excludeUserId = all_loop s message excludeUserId (clients s)"

section \<open>The message handler\<close>

text \<open>
  The handler is an \<open>async\<close> function: it runs up to an \<open>await\<close>, and the rest runs when
  the storage call has answered; handlers of other frames and close events run in
  between. A segment ends by returning, by awaiting, or by throwing into the handler's
  \<open>catch\<close>.
\<close>

datatype outcome = Done | Await task | Throw exn

text \<open>
  The block \<open>if (userId) { clients.set(userId, ws); wsUserMap.set(ws, userId); ... }\<close> up
  to its \<open>await storage.getUserChannels(userId)\<close>.
\<close>

definition bind_user :: "hub \<Rightarrow> ws \<Rightarrow> outcome \<times> hub" where
  "bind_user s w =
     (case userIdVar s w of
        None \<Rightarrow> (Done, s)
      | Some userId \<Rightarrow>
          if userId = [] then (Done, s)
          else (Await (AuthGetUserChannels w userId),
                s\<lparr>clients := AList.update userId w (clients s),
                  wsUserMap := AList.update w userId (wsUserMap s)\<rparr>))"

definition auth_case :: "hub \<Rightarrow> ws \<Rightarrow> payload option \<Rightarrow> outcome \<times> hub" where
  "auth_case s w pl =
     (case pl of
        None \<Rightarrow> (Throw TypeError, s)
      | Some p \<Rightarrow>
          let clientUserId = p_userId p in
          if truthy (authenticatedUserId s w) then
            if clientUserId \<noteq> authenticatedUserId s w
            then (Done, ws_close
                    (console_warn s
                       ''WebSocket auth mismatch: client sent different userId than session'')
                    w 4001 ''Authentication mismatch'')
            else bind_user (s\<lparr>userIdVar := (userIdVar s)(w := authenticatedUserId s w)\<rparr>) w
          else (Await (AuthGetUser w clientUserId), s))"

text \<open>
  The guard \<open>if (userId && message.payload.f)\<close> shared by the other cases: the payload is
  read only when \<open>userId\<close> is truthy, and reading a field of an absent payload throws.
\<close>

definition guarded ::
  "hub \<Rightarrow> ws \<Rightarrow> payload option \<Rightarrow> (payload \<Rightarrow> string option) \<Rightarrow>
   (string \<Rightarrow> string \<Rightarrow> payload \<Rightarrow> outcome \<times> hub) \<Rightarrow> outcome \<times> hub" where
  "guarded s w pl field body =
     (case userIdVar s w of
        None \<Rightarrow> (Done, s)
      | Some userId \<Rightarrow>
          if userId = [] then (Done, s)
          else case pl of
                 None \<Rightarrow> (Throw TypeError, s)
               | Some p \<Rightarrow>
                   (case field p of
                      None \<Rightarrow> (Done, s)
                    | Some v \<Rightarrow> if v = [] then (Done, s) else body userId v p))"

text \<open>
  The \<open>switch\<close> on \<open>message.type\<close> (lines 549-686), each case up to its first
  \<open>await\<close>. There is no \<open>default\<close> case.
\<close>

definition message_start :: "hub \<Rightarrow> ws \<Rightarrow> frame \<Rightarrow> outcome \<times> hub" where
  "message_start s w data =
     (case data of
        Malformed \<Rightarrow> (Throw SyntaxError, s)
      | Frame type pl \<Rightarrow>
          if type = ''auth'' then auth_case s w pl
          else if type = ''typing_start'' then
            guarded s w pl p_channelId
              (\<lambda>userId c p. (Await (TypingGetUser w userId c), s))
          else if type = ''typing_stop'' then
            guarded s w pl p_channelId
              (\<lambda>userId c p.
                 (Done, broadcastToChannel s c (TypingStop (Some userId) c) (Some userId)))
          else if type = ''send_message'' then
            guarded s w pl p_channelId
              (\<lambda>userId c p. (Await (SendIsMember w c userId (p_content p) (p_replyToId p)), s))
          else if type = ''add_reaction'' then
            guarded s w pl p_messageId
              (\<lambda>userId m p. (Await (ReactGetMessage w Add m (p_emoji p)), s))
          else if type = ''remove_reaction'' then
            guarded s w pl p_messageId
              (\<lambda>userId m p. (Await (ReactGetMessage w Remove m (p_emoji p)), s))
          else (Done, s))"

text \<open>
  The answer of the database to the awaited call: the call is rejected, or it completes;
  \<open>Completed g\<close> carries the primary key the database generates should the call insert a
  message.
\<close>

datatype db_reply = Rejected | Completed string

text \<open>
  The rest of a handler from an \<open>await\<close> to the next one. The call is made on the storage
  as it is when the task resumes; \<open>userId\<close> is the connection's variable, read again
  wherever the source reads it after the await. In the bind block the variable cannot be
  null any more (it is only ever assigned a user's id, as the last section proves); that
  branch is the identity.
\<close>

definition continue :: "db_reply \<Rightarrow> hub \<Rightarrow> task \<Rightarrow> outcome \<times> hub" where
  "continue reply s t =
     (case reply of
        Rejected \<Rightarrow> (Throw DbError, s)
      | Completed g \<Rightarrow>
         (case t of
            AuthGetUser w clientUserId \<Rightarrow>
              (case getUser (db s) clientUserId of
                 None \<Rightarrow>
                   (Done, ws_close (console_warn s ''WebSocket auth failed: user not found'')
                            w 4002 ''User not found'')
               | Some user \<Rightarrow> bind_user (s\<lparr>userIdVar := (userIdVar s)(w := clientUserId)\<rparr>) w)
          | AuthGetUserChannels w u \<Rightarrow>
              (case userIdVar s w of
                 None \<Rightarrow> (Done, s)
               | Some userId \<Rightarrow>
                   let channelIds = set (getUserChannels (db s) u);
                       s1 = s\<lparr>userChannels := AList.update userId channelIds (userChannels s)\<rparr>;
                       onlineUserIds = map fst (clients s1);
                       s2 = ws_send s1 w (OnlineUsers onlineUserIds)
                   in (Done, broadcastToAll s2 (UserOnline userId) (Some userId)))
          | TypingGetUser w u c \<Rightarrow>
              (let user = getUser (db s) (Some u)
               in (Done, broadcastToChannel s c
                           (TypingStart (userIdVar s w) c (Option.bind user firstName))
                           (userIdVar s w)))
          | SendIsMember w c u cont reply_to \<Rightarrow>
              (if \<not> isChannelMember (db s) c u then (Done, s)
               else (Await (SendCreate w \<lparr>channelId = c, senderId = userIdVar s w,
                                          content = cont, replyToId = reply_to\<rparr>), s))
          | SendCreate w messageData \<Rightarrow>
              (case createMessage g (db s) messageData of
                 (Inl e, d') \<Rightarrow> (Throw e, s\<lparr>db := d'\<rparr>)
               | (Inr newMessage, d') \<Rightarrow>
                   (Done, broadcastToChannel (s\<lparr>db := d'\<rparr>) (channelId messageData)
                            (NewMessage newMessage) None))
          | ReactGetMessage w act m emoji \<Rightarrow>
              (case getMessage (db s) m of
                 None \<Rightarrow> (Done, s)
               | Some msg \<Rightarrow>
                   (Await (ReactMutate w act (msg_channelId msg) m (userIdVar s w) emoji), s))
          | ReactMutate w act c m u emoji \<Rightarrow>
              (case act of
                 Add \<Rightarrow>
                   (case addReaction (db s)
                           \<lparr>ir_messageId = m, ir_userId = u, ir_emoji = emoji\<rparr> of
                      (Some e, d') \<Rightarrow> (Throw e, s\<lparr>db := d'\<rparr>)
                    | (None, d') \<Rightarrow>
                        (Done, broadcastToChannel (s\<lparr>db := d'\<rparr>) c
                                 (MessageReaction m emoji (userIdVar s w) Add) None))
               | Remove \<Rightarrow>
                   (Done, broadcastToChannel (s\<lparr>db := removeReaction (db s) m u emoji\<rparr>) c
                            (MessageReaction m emoji (userIdVar s w) Remove) None))))"

text \<open>
  How a segment ends: the handler returns, or its task waits in \<open>tasks\<close>, or the
  \<open>catch\<close> block logs the exception; nothing else happens in the \<open>catch\<close>.
\<close>

definition settle :: "outcome \<times> hub \<Rightarrow> hub" where
  "settle r =
     (case r of
        (Done, s) \<Rightarrow> s
      | (Await t, s) \<Rightarrow> s\<lparr>tasks := tasks s @ [t]\<rparr>
      | (Throw e, s) \<Rightarrow> s\<lparr>console := console s @ [Error ''WebSocket message error:'' e]\<rparr>)"

definition on_message :: "hub \<Rightarrow> ws \<Rightarrow> frame \<Rightarrow> hub" where
  "on_message s w data = settle (message_start s w data)"

definition resume :: "db_reply \<Rightarrow> hub \<Rightarrow> nat \<Rightarrow> hub" where
  "resume reply s i =
     (if i < length (tasks s)
      then settle (continue reply (s\<lparr>tasks := take i (tasks s) @ drop (Suc i) (tasks s)\<rparr>)
                     (tasks s ! i))
      else s)"

section \<open>The close handler\<close>

text \<open>
  Lines 692-702: \<open>closingUserId\<close> is \<open>wsUserMap.get(ws) || userId\<close>, and everything else
  is under \<open>if (closingUserId)\<close>.
\<close>

definition closingUserId :: "hub \<Rightarrow> ws \<Rightarrow> string option" where
  "closingUserId s w =
     (if truthy (map_of (wsUserMap s) w) then map_of (wsUserMap s) w else userIdVar s w)"

definition on_close :: "hub \<Rightarrow> ws \<Rightarrow> hub" where
  "on_close s w =
     (case closingUserId s w of
        None \<Rightarrow> s
      | Some u \<Rightarrow>
          if u = [] then s
          else broadcastToAll
                 (s\<lparr>clients := AList.delete u (clients s),
                   userChannels := AList.delete u (userChannels s),
                   wsUserMap := AList.delete w (wsUserMap s)\<rparr>)
                 (UserOffline u) None)"

section \<open>Runs of the server\<close>

text \<open>
  What the event loop dispatches: a frame arriving on a socket, the answer to an awaited
  storage call (of the task at a position of \<open>tasks\<close>), the close event of a socket, and
  the HTTP routes of the same file. The transport emits no frame for a closed socket and
  emits \<open>close\<close> once, with the socket already \<open>CLOSED\<close>. A route writes to the storage
  (any new contents \<open>d\<close>) and calls, at most, \<open>broadcastToChannel\<close> with no excluded
  user; it never touches the maps.
\<close>

datatype input =
    Message ws frame
  | Resume nat db_reply
  | Close ws
  | Route storage "(string \<times> out_event) option"

fun step :: "hub \<Rightarrow> input \<Rightarrow> hub" where
  "step s (Message w data) = (if readyState s w = CLOSED then s else on_message s w data)"
| "step s (Resume i reply) = resume reply s i"
| "step s (Close w) =
     (if readyState s w = CLOSED then s
      else on_close (s\<lparr>readyState := (readyState s)(w := CLOSED)\<rparr>) w)"
| "step s (Route d ev) =
     (case ev of
        None \<Rightarrow> s\<lparr>db := d\<rparr>
      | Some (c, message) \<Rightarrow> broadcastToChannel (s\<lparr>db := d\<rparr>) c message None)"

definition run :: "hub \<Rightarrow> input list \<Rightarrow> hub" where
  "run s ins = foldl step s ins"

text \<open>
  The server starts with empty maps; every socket is open, with the session identity
  \<open>sess\<close> resolved for it at connection time and its \<open>userId\<close> variable null.
\<close>

definition init :: "(ws \<Rightarrow> string option) \<Rightarrow> storage \<Rightarrow> hub" where
  "init sess d =
     \<lparr>clients = [], userChannels = [], wsUserMap = [], userIdVar = (\<lambda>_. None),
      authenticatedUserId = sess, readyState = (\<lambda>_. OPEN), sent = [], closeCalls = [],
      console = [], db = d, tasks = []\<rparr>"

inductive reachable :: "hub \<Rightarrow> bool" where
  start: "reachable (init sess d)"
| next_step: "reachable s \<Longrightarrow> reachable (step s i)"

section \<open>The routers as the specification words them\<close>

text \<open>
  \<open>membersOf\<close> scans the membership index for the users whose set holds the channel.
  \<open>routeTargets\<close> are the connections an event routed to a channel is written to: each
  member other than the excluded user, looked up in the registry, skipped when it has no
  entry or its transport is not open. \<open>allTargets\<close> is the same over every registry entry.
\<close>

definition membersOf :: "hub \<Rightarrow> string \<Rightarrow> string list" where
  "membersOf s c = [u. (u, chans) \<leftarrow> userChannels s, c \<in> chans]"

definition routeTargets :: "hub \<Rightarrow> string \<Rightarrow> string option \<Rightarrow> ws list" where
  "routeTargets s c ex =
     [w. u \<leftarrow> membersOf s c, Some u \<noteq> ex, Some w \<leftarrow> [map_of (clients s) u],
         readyState s w = OPEN]"

definition allTargets :: "hub \<Rightarrow> string option \<Rightarrow> ws list" where
  "allTargets s ex = [w. (u, w) \<leftarrow> clients s, Some u \<noteq> ex, readyState s w = OPEN]"

section \<open>Example hubs\<close>

text \<open>
  A store with three users, of whom \<open>a\<close> and \<open>b\<close> are the members of the one channel, and
  sockets without a session identity, so that they authenticate on the fallback path.
\<close>

definition no_session :: "ws \<Rightarrow> string option" where
  "no_session w = None"

definition demo_db :: storage where
  "demo_db =
     \<lparr>users = [\<lparr>user_id = ''a'', firstName = Some ''Ann''\<rparr>,
               \<lparr>user_id = ''b'', firstName = Some ''Bob''\<rparr>,
               \<lparr>user_id = ''u'', firstName = None\<rparr>],
      channels = [''general''],
      channelMembers = [(''general'', ''a''), (''general'', ''b'')],
      messages = [\<lparr>msg_id = ''m1'', msg_channelId = ''general'', msg_senderId = ''a'',
                   msg_content = Some ''hi'', msg_replyToId = None\<rparr>],
      reactionRows = []\<rparr>"

definition no_fields :: payload where
  "no_fields = \<lparr>p_userId = None, p_channelId = None, p_content = None,
                 p_replyToId = None, p_messageId = None, p_emoji = None\<rparr>"

text \<open>Socket 1 binds as \<open>a\<close> and socket 2 as \<open>b\<close>.\<close>

definition pair_hub :: hub where
  "pair_hub = run (init no_session demo_db)
     [Message 1 (Frame ''auth'' (Some (no_fields\<lparr>p_userId := Some ''a''\<rparr>))),
      Resume 0 (Completed []), Resume 0 (Completed []),
      Message 2 (Frame ''auth'' (Some (no_fields\<lparr>p_userId := Some ''b''\<rparr>))),
      Resume 0 (Completed []), Resume 0 (Completed [])]"

text \<open>Socket 1 binds as \<open>a\<close> and then, with a second \<open>auth\<close> frame, as \<open>b\<close>.\<close>

definition rebound_hub :: hub where
  "rebound_hub = run (init no_session demo_db)
     [Message 1 (Frame ''auth'' (Some (no_fields\<lparr>p_userId := Some ''a''\<rparr>))),
      Resume 0 (Completed []), Resume 0 (Completed []),
      Message 1 (Frame ''auth'' (Some (no_fields\<lparr>p_userId := Some ''b''\<rparr>))),
      Resume 0 (Completed []), Resume 0 (Completed [])]"


text \<open>Socket 1 binds as the member \<open>a\<close>, socket 2 as \<open>u\<close>, who is in no channel.\<close>

definition outsider_hub :: hub where
  "outsider_hub = run (init no_session demo_db)
     [Message 1 (Frame ''auth'' (Some (no_fields\<lparr>p_userId := Some ''a''\<rparr>))),
      Resume 0 (Completed []), Resume 0 (Completed []),
      Message 2 (Frame ''auth'' (Some (no_fields\<lparr>p_userId := Some ''u''\<rparr>))),
      Resume 0 (Completed []), Resume 0 (Completed [])]"

text \<open>Sockets whose session cookie resolves to \<open>a\<close>.\<close>

definition session_a :: "ws \<Rightarrow> string option" where
  "session_a w = Some ''a''"

section \<open>Proof devices\<close>

text \<open>What a segment of the message handler can do to the registry and to \<open>userId\<close>.\<close>

definition registry_step :: "hub \<Rightarrow> hub \<Rightarrow> bool" where
  "registry_step s s' \<longleftrightarrow>
     (clients s' = clients s \<or> (\<exists>u w. clients s' = AList.update u w (clients s)))
     \<and> (\<forall>w. userIdVar s w \<noteq> None \<longrightarrow> userIdVar s' w \<noteq> None)"

text \<open>
  \<open>no_close_of u s ins\<close>: along the inputs \<open>ins\<close> from \<open>s\<close>, no close event is handled for
  a socket whose closing identity is \<open>u\<close>.
\<close>

fun no_close_of :: "string \<Rightarrow> hub \<Rightarrow> input list \<Rightarrow> bool" where
  "no_close_of u s [] = True"
| "no_close_of u s (Close w # ins) =
     ((readyState s w = CLOSED \<or> closingUserId s w \<noteq> Some u)
      \<and> no_close_of u (step s (Close w)) ins)"
| "no_close_of u s (i # ins) = no_close_of u (step s i) ins"

text \<open>
  Every queued bind block belongs to a connection whose \<open>userId\<close> is set, and what a
  segment of the message handler contributes to that.
\<close>

definition bind_tasks_bound :: "hub \<Rightarrow> bool" where
  "bind_tasks_bound s \<longleftrightarrow>
     (\<forall>w u. AuthGetUserChannels w u \<in> set (tasks s) \<longrightarrow> userIdVar s w \<noteq> None)"

definition segment_ok :: "hub \<Rightarrow> outcome \<times> hub \<Rightarrow> bool" where
  "segment_ok s r \<longleftrightarrow>
     tasks (snd r) = tasks s
     \<and> (\<forall>w u. fst r = Await (AuthGetUserChannels w u) \<longrightarrow> userIdVar (snd r) w \<noteq> None)"

section \<open>Basic facts\<close>

lemmas eval_defs = on_message_def message_start_def auth_case_def bind_user_def guarded_def
  settle_def resume_def continue_def on_close_def closingUserId_def truthy_def
  broadcastToAll_def broadcastToChannel_def channelUsers_def ws_send_def ws_close_def
  console_warn_def getUser_def getUserChannels_def isChannelMember_def getMessage_def
  insertMessage_def createMessage_def addReaction_def removeReaction_def run_def init_def
  no_session_def demo_db_def no_fields_def

lemma channel_loop_sent:
  "channel_loop s m ex us =
     s\<lparr>sent := sent s @ [(w, m). u \<leftarrow> us, Some u \<noteq> ex, Some w \<leftarrow> [map_of (clients s) u],
                                  readyState s w = OPEN]\<rparr>"
proof (induction us arbitrary: s)
  case Nil
  show ?case by simp
next
  case (Cons u us)
  show ?case
    by (simp add: Cons.IH ws_send_def split: option.splits cong: if_cong option.case_cong)
qed

lemma all_loop_sent:
  "all_loop s m ex es =
     s\<lparr>sent := sent s @ [(w, m). (u, w) \<leftarrow> es, Some u \<noteq> ex, readyState s w = OPEN]\<rparr>"
proof (induction es arbitrary: s)
  case Nil
  show ?case by simp
next
  case (Cons e es)
  show ?case
    by (cases e) (simp add: Cons.IH ws_send_def cong: if_cong)
qed

lemma members_list:
  "map fst (filter (\<lambda>(_, chans). c \<in> chans) xs) = [u. (u, chans) \<leftarrow> xs, c \<in> chans]"
  by (induction xs) auto

lemma membersOf_channelUsers: "channelUsers s c = membersOf s c"
  unfolding channelUsers_def membersOf_def by (rule members_list)

lemma broadcastToChannel_sent:
  "broadcastToChannel s c m ex = s\<lparr>sent := sent s @ map (\<lambda>w. (w, m)) (routeTargets s c ex)\<rparr>"
proof -
  have "[(w, m). u \<leftarrow> us, Some u \<noteq> ex, Some w \<leftarrow> [map_of (clients s) u], readyState s w = OPEN]
        = map (\<lambda>w. (w, m))
            [w. u \<leftarrow> us, Some u \<noteq> ex, Some w \<leftarrow> [map_of (clients s) u], readyState s w = OPEN]"
    for us
    by (induction us) (auto split: option.splits)
  then show ?thesis
    by (simp add: broadcastToChannel_def channel_loop_sent membersOf_channelUsers
        routeTargets_def)
qed

lemma broadcastToAll_sent:
  "broadcastToAll s m ex = s\<lparr>sent := sent s @ map (\<lambda>w. (w, m)) (allTargets s ex)\<rparr>"
proof -
  have "[(w, m). (u, w) \<leftarrow> es, Some u \<noteq> ex, readyState s w = OPEN]
        = map (\<lambda>w. (w, m)) [w. (u, w) \<leftarrow> es, Some u \<noteq> ex, readyState s w = OPEN]" for es
    by (induction es) auto
  then show ?thesis
    by (simp add: broadcastToAll_def all_loop_sent allTargets_def)
qed

lemma routeTargets_iff:
  "w \<in> set (routeTargets s c ex) \<longleftrightarrow>
     (\<exists>u chans. (u, chans) \<in> set (userChannels s) \<and> c \<in> chans \<and> Some u \<noteq> ex
        \<and> map_of (clients s) u = Some w \<and> readyState s w = OPEN)"
proof -
  have "w \<in> set (routeTargets s c ex) \<longleftrightarrow>
        (\<exists>u \<in> set (membersOf s c). Some u \<noteq> ex \<and> map_of (clients s) u = Some w
           \<and> readyState s w = OPEN)"
    by (force simp: routeTargets_def split: option.splits)
  moreover have "u \<in> set (membersOf s c) \<longleftrightarrow>
                 (\<exists>chans. (u, chans) \<in> set (userChannels s) \<and> c \<in> chans)" for u
    by (auto simp: membersOf_def)
  ultimately show ?thesis by blast
qed

lemma reachable_run: "reachable s \<Longrightarrow> reachable (run s ins)"
  unfolding run_def by (induction ins arbitrary: s) (auto intro: reachable.next_step)

lemma pair_hub_eq:
  "pair_hub =
     \<lparr>clients = [(''a'', 1), (''b'', 2)],
      userChannels = [(''a'', {''general''}), (''b'', {''general''})],
      wsUserMap = [(1, ''a''), (2, ''b'')],
      userIdVar = (\<lambda>w. if w = 1 then Some ''a'' else if w = 2 then Some ''b'' else None),
      authenticatedUserId = no_session, readyState = (\<lambda>_. OPEN),
      sent = [(1, OnlineUsers [''a'']), (2, OnlineUsers [''a'', ''b'']), (1, UserOnline ''b'')],
      closeCalls = [], console = [], db = demo_db, tasks = []\<rparr>"
  by (simp add: pair_hub_def eval_defs fun_eq_iff)

lemma rebound_hub_eq:
  "rebound_hub =
     \<lparr>clients = [(''a'', 1), (''b'', 1)],
      userChannels = [(''a'', {''general''}), (''b'', {''general''})],
      wsUserMap = [(1, ''b'')],
      userIdVar = (\<lambda>w. if w = 1 then Some ''b'' else None),
      authenticatedUserId = no_session, readyState = (\<lambda>_. OPEN),
      sent = [(1, OnlineUsers [''a'']), (1, OnlineUsers [''a'', ''b'']), (1, UserOnline ''b'')],
      closeCalls = [], console = [], db = demo_db, tasks = []\<rparr>"
  by (simp add: rebound_hub_def eval_defs fun_eq_iff)

section \<open>Channel routing\<close>

text \<open>
  C7, as the code has it. An event routed to channel \<open>c\<close> with \<open>excludeUserId = ex\<close> is
  written once for each user whose membership set holds \<open>c\<close> at routing time, other than
  \<open>ex\<close>, to the connection the registry maps that user to, provided that connection is
  open; users with no registry entry or a connection that is not open are skipped, and
  nothing else changes. A \<open>typing_start\<close> resumes into exactly this routing with the
  issuer's \<open>userId\<close> excluded. The exclusion is by user id: the issuer's registry entry is
  never used, so the issuer's own connection is not written to when no other user id is
  registered to that same connection.
\<close>

theorem C7_channel_routing_excludes_user_id:
  "broadcastToChannel s c m ex = s\<lparr>sent := sent s @ map (\<lambda>t. (t, m)) (routeTargets s c ex)\<rparr>
   \<and> (t \<in> set (routeTargets s c ex) \<longleftrightarrow>
        (\<exists>v chans. (v, chans) \<in> set (userChannels s) \<and> c \<in> chans \<and> Some v \<noteq> ex
           \<and> map_of (clients s) v = Some t \<and> readyState s t = OPEN))
   \<and> continue (Completed g) s (TypingGetUser w u c) =
        (Done, broadcastToChannel s c
                 (TypingStart (userIdVar s w) c (Option.bind (getUser (db s) (Some u)) firstName))
                 (userIdVar s w))
   \<and> ((\<forall>v. map_of (clients s) v = Some w \<longrightarrow> Some v = userIdVar s w)
        \<longrightarrow> w \<notin> set (routeTargets s c (userIdVar s w)))"
proof (intro conjI)
  show "broadcastToChannel s c m ex =
        s\<lparr>sent := sent s @ map (\<lambda>t. (t, m)) (routeTargets s c ex)\<rparr>"
    by (rule broadcastToChannel_sent)
  show "t \<in> set (routeTargets s c ex) \<longleftrightarrow>
        (\<exists>v chans. (v, chans) \<in> set (userChannels s) \<and> c \<in> chans \<and> Some v \<noteq> ex
           \<and> map_of (clients s) v = Some t \<and> readyState s t = OPEN)"
    by (rule routeTargets_iff)
  show "continue (Completed g) s (TypingGetUser w u c) =
        (Done, broadcastToChannel s c
                 (TypingStart (userIdVar s w) c (Option.bind (getUser (db s) (Some u)) firstName))
                 (userIdVar s w))"
    by (simp add: continue_def)
  show "(\<forall>v. map_of (clients s) v = Some w \<longrightarrow> Some v = userIdVar s w)
        \<longrightarrow> w \<notin> set (routeTargets s c (userIdVar s w))"
    by (auto simp: routeTargets_iff)
qed

theorem C7_witness:
  "\<not> (\<exists>v. map_of (clients pair_hub) v = Some 1 \<and> Some v \<noteq> userIdVar pair_hub 1)
   \<and> routeTargets pair_hub ''general'' (userIdVar pair_hub 1) = [2]
   \<and> 1 \<notin> set (routeTargets pair_hub ''general'' (userIdVar pair_hub 1))"
proof -
  have h: "\<forall>v. map_of (clients pair_hub) v = Some 1 \<longrightarrow> Some v = userIdVar pair_hub 1"
    by (simp add: pair_hub_eq)
  have "routeTargets pair_hub ''general'' (userIdVar pair_hub 1) = [2]"
    by (simp add: pair_hub_eq routeTargets_def membersOf_def)
  with h C7_channel_routing_excludes_user_id [where s = pair_hub and c = "''general''" and w = 1]
  show ?thesis by blast
qed

text \<open>
  The claim as stated fails when a socket has bound twice: socket 1 is registered under
  \<open>a\<close> and under \<open>b\<close>, issues \<open>typing_start\<close> as \<open>b\<close>, and is written to through the
  entry of \<open>a\<close>.
\<close>

theorem C7_counterexample:
  "reachable rebound_hub
   \<and> userIdVar rebound_hub 1 = Some ''b'' \<and> map_of (clients rebound_hub) ''b'' = Some 1
   \<and> (1, TypingStart (Some ''b'') ''general'' (Some ''Bob'')) \<in>
       set (sent (run rebound_hub
         [Message 1 (Frame ''typing_start'' (Some (no_fields\<lparr>p_channelId := Some ''general''\<rparr>))),
          Resume 0 (Completed [])]))"
proof -
  have "reachable rebound_hub"
    unfolding rebound_hub_def by (rule reachable_run) (rule reachable.start)
  then show ?thesis
    by (simp add: rebound_hub_eq) (simp add: eval_defs)
qed

lemma allTargets_fields [simp]:
  "allTargets (s\<lparr>sent := x\<rparr>) ex = allTargets s ex"
  "allTargets (s\<lparr>userChannels := y\<rparr>) ex = allTargets s ex"
  "allTargets (s\<lparr>wsUserMap := z\<rparr>) ex = allTargets s ex"
  by (simp_all add: allTargets_def cong: if_cong)





section \<open>Teardown\<close>









lemma outsider_hub_eq:
  "outsider_hub =
     \<lparr>clients = [(''a'', 1), (''u'', 2)],
      userChannels = [(''a'', {''general''}), (''u'', {})],
      wsUserMap = [(1, ''a''), (2, ''u'')],
      userIdVar = (\<lambda>w. if w = 1 then Some ''a'' else if w = 2 then Some ''u'' else None),
      authenticatedUserId = no_session, readyState = (\<lambda>_. OPEN),
      sent = [(1, OnlineUsers [''a'']), (2, OnlineUsers [''a'', ''u'']), (1, UserOnline ''u'')],
      closeCalls = [], console = [], db = demo_db, tasks = []\<rparr>"
  by (simp add: outsider_hub_def eval_defs fun_eq_iff)

section \<open>The message handler's gates\<close>

text \<open>
  C4. A \<open>send_message\<close> frame from a connection bound as \<open>u\<close> only queues the storage
  check \<open>isChannelMember(c, u)\<close>. When the check answers that \<open>u\<close> is not a member, the
  handler ends there: its task leaves the queue and nothing else changes, so no message is
  created (the storage is as before and no \<open>createMessage\<close> call is queued) and nothing
  is written to any socket.
\<close>

theorem C4_send_message_authorization_gate:
  "(userIdVar s w = Some u \<and> u \<noteq> [] \<and> p_channelId p = Some c \<and> c \<noteq> [] \<longrightarrow>
      on_message s w (Frame ''send_message'' (Some p)) =
        s\<lparr>tasks := tasks s @ [SendIsMember w c u (p_content p) (p_replyToId p)]\<rparr>)
   \<and> (i < length (tasks s2) \<and> tasks s2 ! i = SendIsMember w c u cont rep
        \<and> \<not> isChannelMember (db s2) c u \<longrightarrow>
      resume (Completed g) s2 i = s2\<lparr>tasks := take i (tasks s2) @ drop (Suc i) (tasks s2)\<rparr>
      \<and> db (resume (Completed g) s2 i) = db s2
      \<and> sent (resume (Completed g) s2 i) = sent s2)"
  by (simp add: on_message_def message_start_def guarded_def settle_def resume_def continue_def)

theorem C4_witness:
  "userIdVar outsider_hub 2 = Some ''u'' \<and> \<not> isChannelMember (db outsider_hub) ''general'' ''u''
   \<and> run outsider_hub
        [Message 2 (Frame ''send_message''
           (Some (no_fields\<lparr>p_channelId := Some ''general'', p_content := Some ''hi''\<rparr>))),
         Resume 0 (Completed ''m2'')] = outsider_hub"
proof -
  let ?p = "no_fields\<lparr>p_channelId := Some ''general'', p_content := Some ''hi''\<rparr>"
  let ?s2 = "outsider_hub\<lparr>tasks := [SendIsMember 2 ''general'' ''u'' (Some ''hi'') None]\<rparr>"
  have h: "userIdVar outsider_hub 2 = Some ''u''"
    "\<not> isChannelMember (db outsider_hub) ''general'' ''u''"
    by (simp_all add: outsider_hub_eq isChannelMember_def demo_db_def)
  have t: "tasks outsider_hub = []" "readyState outsider_hub 2 = OPEN"
    by (simp_all add: outsider_hub_eq)
  have a: "on_message outsider_hub 2 (Frame ''send_message'' (Some ?p)) = ?s2"
    using C4_send_message_authorization_gate
      [where s = outsider_hub and w = 2 and u = "''u''" and p = ?p and c = "''general''"] h t
    by (simp add: no_fields_def)
  have b: "resume (Completed ''m2'') ?s2 0 = outsider_hub"
    using C4_send_message_authorization_gate
      [where ?s2.0 = ?s2 and i = 0 and w = 2 and u = "''u''" and c = "''general''"
         and cont = "Some ''hi''" and rep = None and g = "''m2''"] h t
    by simp
  show ?thesis using h a b t by (simp add: run_def)
qed



lemma guarded_throw:
  "fst (guarded s w pl f body) = Throw e \<Longrightarrow>
   (\<And>u v p. fst (body u v p) \<noteq> Throw e) \<Longrightarrow> snd (guarded s w pl f body) = s"
  by (simp add: guarded_def split: option.splits if_splits)

lemma auth_case_throw: "fst (auth_case s w pl) = Throw e \<Longrightarrow> snd (auth_case s w pl) = s"
  by (simp add: auth_case_def bind_user_def Let_def split: option.splits if_splits)

lemma message_start_throw:
  "fst (message_start s w data) = Throw e \<Longrightarrow> snd (message_start s w data) = s"
  by (cases data)
     (simp_all add: message_start_def auth_case_throw guarded_throw split: if_splits)

lemma continue_throw:
  "fst (continue r s t) = Throw e \<Longrightarrow> snd (continue r s t) = s\<lparr>db := db (snd (continue r s t))\<rparr>"
proof (cases r)
  case Rejected
  then show ?thesis by (simp add: continue_def)
next
  case (Completed g)
  assume th: "fst (continue r s t) = Throw e"
  show ?thesis
  proof (cases t)
    case (AuthGetUser w cid)
    with th Completed show ?thesis
      by (simp add: continue_def bind_user_def split: option.splits if_splits)
  next
    case (AuthGetUserChannels w u)
    with th Completed show ?thesis
      by (simp add: continue_def Let_def split: option.splits)
  next
    case (TypingGetUser w u c)
    with th Completed show ?thesis by (simp add: continue_def)
  next
    case (SendIsMember w c u cont rep)
    with th Completed show ?thesis by (simp add: continue_def split: if_splits)
  next
    case (SendCreate w md)
    with th Completed show ?thesis
      by (cases "createMessage g (db s) md") (simp add: continue_def split: sum.splits)
  next
    case (ReactGetMessage w act m em)
    with th Completed show ?thesis by (simp add: continue_def split: option.splits)
  next
    case (ReactMutate w act c m u em)
    with th Completed show ?thesis
      by (cases "addReaction (db s) \<lparr>ir_messageId = m, ir_userId = u, ir_emoji = em\<rparr>")
         (simp add: continue_def split: action.splits option.splits)
  qed
qed

text \<open>
  C9. A malformed frame throws inside the handler's \<open>try\<close>: the exception is logged and
  nothing else changes. A frame with an unrecognised type tag changes nothing at all. More
  generally, whenever a handler throws, before its first \<open>await\<close> or after any later one,
  the \<open>catch\<close> logs the exception and the handler ends: the socket's ready state is as
  before, no \<open>ws.close\<close> is called, the maps are untouched and nothing is written to any
  socket. Both entry points of the handler are total functions on hubs, so no exception
  leaves it.
\<close>

theorem C9_frame_failures_contained:
  "on_message s w Malformed =
     s\<lparr>console := console s @ [Error ''WebSocket message error:'' SyntaxError]\<rparr>
   \<and> (type \<notin> {''auth'', ''typing_start'', ''typing_stop'', ''send_message'', ''add_reaction'',
                ''remove_reaction''} \<longrightarrow> on_message s w (Frame type pl) = s)
   \<and> (fst (message_start s w data) = Throw e \<longrightarrow>
        on_message s w data = s\<lparr>console := console s @ [Error ''WebSocket message error:'' e]\<rparr>)
   \<and> (i < length (tasks s)
        \<and> fst (continue r (s\<lparr>tasks := take i (tasks s) @ drop (Suc i) (tasks s)\<rparr>) (tasks s ! i))
            = Throw e \<longrightarrow>
        console (resume r s i) = console s @ [Error ''WebSocket message error:'' e]
        \<and> readyState (resume r s i) = readyState s
        \<and> closeCalls (resume r s i) = closeCalls s
        \<and> clients (resume r s i) = clients s
        \<and> userChannels (resume r s i) = userChannels s
        \<and> wsUserMap (resume r s i) = wsUserMap s
        \<and> sent (resume r s i) = sent s
        \<and> tasks (resume r s i) = take i (tasks s) @ drop (Suc i) (tasks s))"
proof (intro conjI impI)
  show "on_message s w Malformed =
     s\<lparr>console := console s @ [Error ''WebSocket message error:'' SyntaxError]\<rparr>"
    by (simp add: on_message_def message_start_def settle_def)
next
  assume "type \<notin> {''auth'', ''typing_start'', ''typing_stop'', ''send_message'', ''add_reaction'',
                ''remove_reaction''}"
  then show "on_message s w (Frame type pl) = s"
    by (simp add: on_message_def message_start_def settle_def)
next
  assume th: "fst (message_start s w data) = Throw e"
  from message_start_throw [OF th] th
  have "message_start s w data = (Throw e, s)" by (cases "message_start s w data") simp
  then show "on_message s w data = s\<lparr>console := console s @ [Error ''WebSocket message error:'' e]\<rparr>"
    by (simp add: on_message_def settle_def)
next
  let ?s0 = "s\<lparr>tasks := take i (tasks s) @ drop (Suc i) (tasks s)\<rparr>"
  assume a: "i < length (tasks s) \<and> fst (continue r ?s0 (tasks s ! i)) = Throw e"
  define d where "d = db (snd (continue r ?s0 (tasks s ! i)))"
  from a have "snd (continue r ?s0 (tasks s ! i)) = ?s0\<lparr>db := d\<rparr>"
    unfolding d_def using continue_throw by blast
  with a have c: "continue r ?s0 (tasks s ! i) = (Throw e, ?s0\<lparr>db := d\<rparr>)"
    by (cases "continue r ?s0 (tasks s ! i)") simp
  have r: "resume r s i = ?s0\<lparr>db := d, console := console s @ [Error ''WebSocket message error:'' e]\<rparr>"
    using a by (simp add: resume_def c settle_def)
  show "console (resume r s i) = console s @ [Error ''WebSocket message error:'' e]"
    "readyState (resume r s i) = readyState s"
    "closeCalls (resume r s i) = closeCalls s"
    "clients (resume r s i) = clients s"
    "userChannels (resume r s i) = userChannels s"
    "wsUserMap (resume r s i) = wsUserMap s"
    "sent (resume r s i) = sent s"
    "tasks (resume r s i) = take i (tasks s) @ drop (Suc i) (tasks s)"
    unfolding r by simp_all
qed

theorem C9_witness:
  "on_message pair_hub 1 (Frame ''ping'' None) = pair_hub
   \<and> fst (message_start pair_hub 1 (Frame ''typing_start'' None)) = Throw TypeError
   \<and> on_message pair_hub 1 (Frame ''typing_start'' None) =
       pair_hub\<lparr>console := [Error ''WebSocket message error:'' TypeError]\<rparr>
   \<and> console (resume Rejected (pair_hub\<lparr>tasks := [SendIsMember 1 ''general'' ''a'' None None]\<rparr>) 0)
       = [Error ''WebSocket message error:'' DbError]
   \<and> readyState (resume Rejected (pair_hub\<lparr>tasks := [SendIsMember 1 ''general'' ''a'' None None]\<rparr>) 0) 1
       = OPEN"
proof -
  let ?s = "pair_hub\<lparr>tasks := [SendIsMember 1 ''general'' ''a'' None None]\<rparr>"
  have h1: "''ping'' \<notin> {''auth'', ''typing_start'', ''typing_stop'', ''send_message'',
                         ''add_reaction'', ''remove_reaction''}"
    by simp
  have h2: "fst (message_start pair_hub 1 (Frame ''typing_start'' None)) = Throw TypeError"
    by (simp add: message_start_def guarded_def pair_hub_eq)
  have h3: "0 < length (tasks ?s)
        \<and> fst (continue Rejected (?s\<lparr>tasks := take 0 (tasks ?s) @ drop (Suc 0) (tasks ?s)\<rparr>)
                 (tasks ?s ! 0)) = Throw DbError"
    by (simp add: continue_def)
  note t = C9_frame_failures_contained
  have a: "on_message pair_hub 1 (Frame ''ping'' None) = pair_hub"
    by (rule t [where type = "''ping''", THEN conjunct2, THEN conjunct1, rule_format, OF h1])
  have b: "on_message pair_hub 1 (Frame ''typing_start'' None) =
       pair_hub\<lparr>console := console pair_hub @ [Error ''WebSocket message error:'' TypeError]\<rparr>"
    by (rule t [THEN conjunct2, THEN conjunct2, THEN conjunct1, rule_format, OF h2])
  note c = t [where s = ?s and i = 0 and r = Rejected and e = DbError,
      THEN conjunct2, THEN conjunct2, THEN conjunct2, rule_format, OF h3]
  have c1: "console (resume Rejected ?s 0) = console ?s @ [Error ''WebSocket message error:'' DbError]"
    and c2: "readyState (resume Rejected ?s 0) = readyState ?s"
    using c by (rule conjunct1, rule conjunct2 [THEN conjunct1])
  have p: "console pair_hub = []" "readyState pair_hub 1 = OPEN"
    by (simp_all add: pair_hub_eq)
  show ?thesis
    unfolding a b c1 c2 using h2 p by simp
qed

text \<open>
  C1 does not hold of the code: only \<open>send_message\<close> calls \<open>isChannelMember\<close>. Socket 2
  is bound as \<open>u\<close>, who is not a member of \<open>general\<close>. Its \<open>add_reaction\<close> on a message
  of that channel is stored and routed to the members, and its typing frames are routed
  to them as well; no step of these runs evaluates the membership check.
\<close>

theorem C1_reactions_and_typing_skip_membership_check:
  "userIdVar outsider_hub 2 = Some ''u''
   \<and> \<not> isChannelMember (db outsider_hub) ''general'' ''u''
   \<and> getMessage (db outsider_hub) ''m1'' =
       Some \<lparr>msg_id = ''m1'', msg_channelId = ''general'', msg_senderId = ''a'',
             msg_content = Some ''hi'', msg_replyToId = None\<rparr>
   \<and> reactionRows (db (run outsider_hub
        [Message 2 (Frame ''add_reaction''
           (Some (no_fields\<lparr>p_messageId := Some ''m1'', p_emoji := Some ''+1''\<rparr>))),
         Resume 0 (Completed []), Resume 0 (Completed [])]))
       = [\<lparr>r_messageId = ''m1'', r_userId = ''u'', r_emoji = ''+1''\<rparr>]
   \<and> sent (run outsider_hub
        [Message 2 (Frame ''add_reaction''
           (Some (no_fields\<lparr>p_messageId := Some ''m1'', p_emoji := Some ''+1''\<rparr>))),
         Resume 0 (Completed []), Resume 0 (Completed [])])
       = sent outsider_hub @ [(1, MessageReaction ''m1'' (Some ''+1'') (Some ''u'') Add)]
   \<and> sent (run outsider_hub
        [Message 2 (Frame ''remove_reaction''
           (Some (no_fields\<lparr>p_messageId := Some ''m1'', p_emoji := Some ''+1''\<rparr>))),
         Resume 0 (Completed []), Resume 0 (Completed [])])
       = sent outsider_hub @ [(1, MessageReaction ''m1'' (Some ''+1'') (Some ''u'') Remove)]
   \<and> sent (run outsider_hub
        [Message 2 (Frame ''typing_start'' (Some (no_fields\<lparr>p_channelId := Some ''general''\<rparr>))),
         Resume 0 (Completed [])])
       = sent outsider_hub @ [(1, TypingStart (Some ''u'') ''general'' None)]
   \<and> sent (run outsider_hub
        [Message 2 (Frame ''typing_stop'' (Some (no_fields\<lparr>p_channelId := Some ''general''\<rparr>)))])
       = sent outsider_hub @ [(1, TypingStop (Some ''u'') ''general'')]"
  by (simp add: outsider_hub_eq) (simp add: eval_defs)

lemma createMessage_Inr:
  assumes "createMessage g d md = (Inr nm, d')"
  shows "senderId md = Some (msg_senderId nm)" "getUser d' (Some (msg_senderId nm)) = Some (sender nm)"
    "reactions nm = []" "msg_id nm = g" "msg_channelId nm = channelId md"
    "msg_content nm = content md" "msg_replyToId nm = replyToId md"
    "messages d' = messages d @ [\<lparr>msg_id = g, msg_channelId = channelId md,
        msg_senderId = msg_senderId nm, msg_content = content md, msg_replyToId = replyToId md\<rparr>]"
  using assms
  by (auto simp: createMessage_def insertMessage_def split: option.splits if_splits)

section \<open>Sending a message\<close>

text \<open>
  C6. When the membership check of a \<open>send_message\<close> succeeds the handler queues
  \<open>createMessage\<close> with the connection's \<open>userId\<close> as sender. When that call returns a
  record, the record is the inserted row with the sender's user row and an empty reaction
  list, and \<open>new_message\<close> with this record is routed to the channel without any
  excluded user: it is written once for each user whose membership set holds the channel,
  the sender's included, to the open connection the registry maps that user to.
\<close>

theorem C6_new_message_routed_to_all_members:
  "(i < length (tasks s2) \<and> tasks s2 ! i = SendIsMember w c u cont rep
      \<and> isChannelMember (db s2) c u \<longrightarrow>
      resume (Completed g) s2 i =
        s2\<lparr>tasks := take i (tasks s2) @ drop (Suc i) (tasks s2) @
                 [SendCreate w \<lparr>channelId = c, senderId = userIdVar s2 w, content = cont,
                                replyToId = rep\<rparr>]\<rparr>)
   \<and> (createMessage g (db s) md = (Inr nm, d') \<longrightarrow>
        continue (Completed g) s (SendCreate w md) =
          (Done, s\<lparr>db := d',
                   sent := sent s @ map (\<lambda>t. (t, NewMessage nm))
                                      (routeTargets s (channelId md) None)\<rparr>)
        \<and> (t \<in> set (routeTargets s (channelId md) None) \<longleftrightarrow>
             (\<exists>v chans. (v, chans) \<in> set (userChannels s) \<and> channelId md \<in> chans
                \<and> map_of (clients s) v = Some t \<and> readyState s t = OPEN))
        \<and> senderId md = Some (msg_senderId nm)
        \<and> getUser d' (Some (msg_senderId nm)) = Some (sender nm)
        \<and> reactions nm = []
        \<and> msg_channelId nm = channelId md \<and> msg_content nm = content md
        \<and> messages d' = messages (db s) @
             [\<lparr>msg_id = g, msg_channelId = channelId md, msg_senderId = msg_senderId nm,
               msg_content = content md, msg_replyToId = replyToId md\<rparr>])"
proof (intro conjI impI)
  assume "i < length (tasks s2) \<and> tasks s2 ! i = SendIsMember w c u cont rep
      \<and> isChannelMember (db s2) c u"
  then show "resume (Completed g) s2 i =
        s2\<lparr>tasks := take i (tasks s2) @ drop (Suc i) (tasks s2) @
                 [SendCreate w \<lparr>channelId = c, senderId = userIdVar s2 w, content = cont,
                                replyToId = rep\<rparr>]\<rparr>"
    by (simp add: resume_def continue_def settle_def)
next
  assume c: "createMessage g (db s) md = (Inr nm, d')"
  show "continue (Completed g) s (SendCreate w md) =
          (Done, s\<lparr>db := d',
                   sent := sent s @ map (\<lambda>t. (t, NewMessage nm))
                                      (routeTargets s (channelId md) None)\<rparr>)"
    by (simp add: continue_def c broadcastToChannel_sent routeTargets_def membersOf_def
        cong: if_cong option.case_cong)
  show "t \<in> set (routeTargets s (channelId md) None) \<longleftrightarrow>
             (\<exists>v chans. (v, chans) \<in> set (userChannels s) \<and> channelId md \<in> chans
                \<and> map_of (clients s) v = Some t \<and> readyState s t = OPEN)"
    by (simp add: routeTargets_iff)
  show "senderId md = Some (msg_senderId nm)" "getUser d' (Some (msg_senderId nm)) = Some (sender nm)"
    "reactions nm = []" "msg_channelId nm = channelId md" "msg_content nm = content md"
    "messages d' = messages (db s) @
             [\<lparr>msg_id = g, msg_channelId = channelId md, msg_senderId = msg_senderId nm,
               msg_content = content md, msg_replyToId = replyToId md\<rparr>]"
    using createMessage_Inr [OF c] by simp_all
qed

theorem C6_witness:
  "createMessage ''m2'' (db pair_hub)
      \<lparr>channelId = ''general'', senderId = Some ''a'', content = Some ''hi'', replyToId = None\<rparr>
     = (Inr \<lparr>msg_id = ''m2'', msg_channelId = ''general'', msg_senderId = ''a'',
             msg_content = Some ''hi'', msg_replyToId = None,
             sender = \<lparr>user_id = ''a'', firstName = Some ''Ann''\<rparr>, reactions = []\<rparr>,
        demo_db\<lparr>messages := messages demo_db @
           [\<lparr>msg_id = ''m2'', msg_channelId = ''general'', msg_senderId = ''a'',
             msg_content = Some ''hi'', msg_replyToId = None\<rparr>]\<rparr>)
   \<and> sent (snd (continue (Completed ''m2'') pair_hub
        (SendCreate 1 \<lparr>channelId = ''general'', senderId = Some ''a'', content = Some ''hi'',
                       replyToId = None\<rparr>)))
     = sent pair_hub @
       [(1, NewMessage \<lparr>msg_id = ''m2'', msg_channelId = ''general'', msg_senderId = ''a'',
             msg_content = Some ''hi'', msg_replyToId = None,
             sender = \<lparr>user_id = ''a'', firstName = Some ''Ann''\<rparr>, reactions = []\<rparr>),
        (2, NewMessage \<lparr>msg_id = ''m2'', msg_channelId = ''general'', msg_senderId = ''a'',
             msg_content = Some ''hi'', msg_replyToId = None,
             sender = \<lparr>user_id = ''a'', firstName = Some ''Ann''\<rparr>, reactions = []\<rparr>)]"
proof -
  let ?md = "\<lparr>channelId = ''general'', senderId = Some ''a'', content = Some ''hi'',
              replyToId = None\<rparr>"
  let ?nm = "\<lparr>msg_id = ''m2'', msg_channelId = ''general'', msg_senderId = ''a'',
             msg_content = Some ''hi'', msg_replyToId = None,
             sender = \<lparr>user_id = ''a'', firstName = Some ''Ann''\<rparr>, reactions = []\<rparr>"
  let ?d = "demo_db\<lparr>messages := messages demo_db @
           [\<lparr>msg_id = ''m2'', msg_channelId = ''general'', msg_senderId = ''a'',
             msg_content = Some ''hi'', msg_replyToId = None\<rparr>]\<rparr>"
  have c: "createMessage ''m2'' (db pair_hub) ?md = (Inr ?nm, ?d)"
    by (simp add: pair_hub_eq) (simp add: createMessage_def insertMessage_def getUser_def demo_db_def)
  have t: "routeTargets pair_hub ''general'' None = [1, 2]"
    by (simp add: pair_hub_eq routeTargets_def membersOf_def)
  note k = C6_new_message_routed_to_all_members
    [where s = pair_hub and w = 1, THEN conjunct2, rule_format, OF c, THEN conjunct1]
  show ?thesis
    unfolding c k using t by simp
qed

section \<open>The registry along runs\<close>

lemma registry_step_refl [simp]: "registry_step s s"
  by (simp add: registry_step_def)

lemma registry_step_fields [simp]:
  "registry_step s (s'\<lparr>sent := x\<rparr>) = registry_step s s'"
  "registry_step s (s'\<lparr>tasks := y\<rparr>) = registry_step s s'"
  "registry_step s (s'\<lparr>console := z\<rparr>) = registry_step s s'"
  "registry_step s (s'\<lparr>db := d\<rparr>) = registry_step s s'"
  "registry_step s (s'\<lparr>userChannels := uc\<rparr>) = registry_step s s'"
  by (simp_all add: registry_step_def)

lemma registry_step_close [simp]: "registry_step s (ws_close (console_warn s x) w c r)"
  by (simp add: registry_step_def ws_close_def console_warn_def)

lemma registry_step_bind:
  "v \<noteq> None \<Longrightarrow> registry_step s (snd (bind_user (s\<lparr>userIdVar := (userIdVar s)(w := v)\<rparr>) w))"
  by (auto simp: registry_step_def bind_user_def split: option.splits)

lemma registry_step_guarded:
  "(\<And>u v p. registry_step s (snd (body u v p))) \<Longrightarrow> registry_step s (snd (guarded s w pl f body))"
  by (simp add: guarded_def split: option.splits)

lemma registry_step_auth: "registry_step s (snd (auth_case s w pl))"
proof (cases "truthy (authenticatedUserId s w)")
  case True
  then have "authenticatedUserId s w \<noteq> None" by (auto simp: truthy_def split: option.splits)
  then show ?thesis
    using True by (simp add: auth_case_def registry_step_bind split: option.splits)
next
  case False
  then show ?thesis by (simp add: auth_case_def split: option.splits)
qed

lemma registry_step_start: "registry_step s (snd (message_start s w data))"
  by (cases data)
     (simp_all add: message_start_def registry_step_auth registry_step_guarded
        broadcastToChannel_sent)

lemma registry_step_continue: "registry_step s (snd (continue r s t))"
proof (cases r)
  case Rejected
  then show ?thesis by (simp add: continue_def)
next
  case (Completed g)
  show ?thesis
  proof (cases t)
    case (AuthGetUser w cid)
    show ?thesis
    proof (cases "getUser (db s) cid")
      case None
      with Completed AuthGetUser show ?thesis by (simp add: continue_def)
    next
      case (Some usr)
      then have "cid \<noteq> None" by (auto simp: getUser_def split: option.splits)
      with Completed AuthGetUser Some show ?thesis
        by (simp add: continue_def registry_step_bind)
    qed
  next
    case (AuthGetUserChannels w u)
    with Completed show ?thesis
      by (simp add: continue_def Let_def broadcastToAll_sent ws_send_def split: option.splits)
  next
    case (TypingGetUser w u c)
    with Completed show ?thesis by (simp add: continue_def broadcastToChannel_sent)
  next
    case (SendIsMember w c u cont rep)
    with Completed show ?thesis by (simp add: continue_def)
  next
    case (SendCreate w md)
    with Completed show ?thesis
      by (cases "createMessage g (db s) md")
         (simp add: continue_def broadcastToChannel_sent split: sum.splits)
  next
    case (ReactGetMessage w act m em)
    with Completed show ?thesis by (simp add: continue_def split: option.splits)
  next
    case (ReactMutate w act c m u em)
    with Completed show ?thesis
      by (cases "addReaction (db s) \<lparr>ir_messageId = m, ir_userId = u, ir_emoji = em\<rparr>")
         (simp add: continue_def broadcastToChannel_sent split: action.splits option.splits)
  qed
qed

lemma registry_step_settle: "registry_step s (snd r) \<Longrightarrow> registry_step s (settle r)"
  by (cases r) (simp add: settle_def split: outcome.splits)

lemma registry_step_message: "registry_step s (on_message s w data)"
  unfolding on_message_def by (rule registry_step_settle) (rule registry_step_start)

lemma registry_step_resume: "registry_step s (resume r s i)"
proof (cases "i < length (tasks s)")
  case True
  let ?s0 = "s\<lparr>tasks := take i (tasks s) @ drop (Suc i) (tasks s)\<rparr>"
  have "registry_step ?s0 (settle (continue r ?s0 (tasks s ! i)))"
    by (rule registry_step_settle) (rule registry_step_continue)
  then show ?thesis using True by (simp add: resume_def registry_step_def)
next
  case False
  then show ?thesis by (simp add: resume_def)
qed

lemma on_close_clients:
  "clients (on_close s w) =
     (case closingUserId s w of
        None \<Rightarrow> clients s
      | Some u \<Rightarrow> if u = [] then clients s else AList.delete u (clients s))"
  by (simp add: on_close_def broadcastToAll_sent split: option.splits)









lemma registry_step_keys:
  assumes "registry_step s s'" and "u \<in> fst ` set (clients s)"
  shows "u \<in> fst ` set (clients s')"
proof -
  from assms(1) consider "clients s' = clients s"
    | x y where "clients s' = AList.update x y (clients s)"
    by (auto simp: registry_step_def)
  then show ?thesis
    using assms(2) by cases (simp_all add: AList.dom_update)
qed

lemma registry_step_var:
  "registry_step s s' \<Longrightarrow> userIdVar s w \<noteq> None \<Longrightarrow> userIdVar s' w \<noteq> None"
  by (simp add: registry_step_def)

lemma on_close_var: "userIdVar (on_close s w) = userIdVar s"
  by (simp add: on_close_def broadcastToAll_sent split: option.splits)

lemma closingUserId_readyState [simp]:
  "closingUserId (s\<lparr>readyState := x\<rparr>) w = closingUserId s w"
  by (simp add: closingUserId_def)

lemma close_keeps_key:
  "u \<in> fst ` set (clients s) \<Longrightarrow> readyState s w = CLOSED \<or> closingUserId s w \<noteq> Some u \<Longrightarrow>
   u \<in> fst ` set (clients (step s (Close w)))"
  by (auto simp: on_close_clients AList.delete_eq split: option.splits)

lemma run_keeps_key:
  "u \<in> fst ` set (clients s) \<Longrightarrow> userIdVar s w \<noteq> None \<Longrightarrow> no_close_of u s ins \<Longrightarrow>
   u \<in> fst ` set (clients (run s ins)) \<and> userIdVar (run s ins) w \<noteq> None"
proof (induction ins arbitrary: s)
  case Nil
  then show ?case by (simp add: run_def)
next
  case (Cons i ins)
  have r: "run s (i # ins) = run (step s i) ins"
    by (simp add: run_def)
  show ?case
  proof (cases i)
    case (Message w' data)
    have g: "registry_step s (step s i)"
      using Message by (simp add: registry_step_message)
    have k: "u \<in> fst ` set (clients (step s i))"
      using g Cons.prems(1) by (rule registry_step_keys)
    have v: "userIdVar (step s i) w \<noteq> None"
      using g Cons.prems(2) by (rule registry_step_var)
    from Cons.prems(3) Message have "no_close_of u (step s i) ins" by simp
    with k v show ?thesis
      unfolding r by (intro Cons.IH)
  next
    case (Resume n rep)
    have g: "registry_step s (step s i)"
      using Resume by (simp add: registry_step_resume)
    have k: "u \<in> fst ` set (clients (step s i))"
      using g Cons.prems(1) by (rule registry_step_keys)
    have v: "userIdVar (step s i) w \<noteq> None"
      using g Cons.prems(2) by (rule registry_step_var)
    from Cons.prems(3) Resume have "no_close_of u (step s i) ins" by simp
    with k v show ?thesis
      unfolding r by (intro Cons.IH)
  next
    case (Close w')
    from Cons.prems(3) have c: "readyState s w' = CLOSED \<or> closingUserId s w' \<noteq> Some u"
      and n: "no_close_of u (step s i) ins"
      unfolding Close by (simp_all del: step.simps)
    have k: "u \<in> fst ` set (clients (step s i))"
      unfolding Close using Cons.prems(1) c by (rule close_keeps_key)
    have v: "userIdVar (step s i) w \<noteq> None"
      using Cons.prems(2) Close by (simp add: on_close_var)
    from k v n show ?thesis
      unfolding r by (intro Cons.IH)
  next
    case (Route d ev)
    have k: "u \<in> fst ` set (clients (step s i))"
      using Cons.prems(1) Route by (simp add: broadcastToChannel_sent split: option.splits)
    have v: "userIdVar (step s i) w \<noteq> None"
      using Cons.prems(2) Route by (simp add: broadcastToChannel_sent split: option.splits)
    from Cons.prems(3) have n: "no_close_of u (step s i) ins"
      unfolding Route by (simp del: step.simps)
    from k v n show ?thesis
      unfolding r by (intro Cons.IH)
  qed
qed

lemma resume_snapshot:
  "i < length (tasks s) \<Longrightarrow> tasks s ! i = AuthGetUserChannels w u' \<Longrightarrow>
   userIdVar s w = Some v \<Longrightarrow> readyState s w = OPEN \<Longrightarrow>
   sent (resume (Completed g) s i) =
     sent s @ (w, OnlineUsers (map fst (clients s))) #
       map (\<lambda>t. (t, UserOnline v)) (allTargets s (Some v))"
  by (simp add: resume_def continue_def settle_def Let_def ws_send_def broadcastToAll_sent
      allTargets_def cong: if_cong)

section \<open>The snapshot of online users\<close>

text \<open>
  C10, as the code has it. The bind block inserts the registry entry for \<open>u\<close> and then
  awaits \<open>getUserChannels\<close>; when it resumes it sends, to its socket if open, the
  registry's keys as they are then. The entry for \<open>u\<close> is inserted first, and it is still
  there, so the snapshot contains \<open>u\<close>, after any inputs handled during the await among
  which there is no close event of a socket whose closing identity is \<open>u\<close>.
\<close>

theorem C10_snapshot_contains_user_unless_closed:
  "(i < length (tasks s2) \<and> tasks s2 ! i = AuthGetUserChannels w u' \<and> userIdVar s2 w = Some v
      \<and> readyState s2 w = OPEN \<longrightarrow>
      sent (resume (Completed g) s2 i) =
        sent s2 @ (w, OnlineUsers (map fst (clients s2))) #
          map (\<lambda>t. (t, UserOnline v)) (allTargets s2 (Some v)))
   \<and> (userIdVar s w = Some u \<and> u \<noteq> [] \<longrightarrow>
        settle (bind_user s w) =
          s\<lparr>clients := AList.update u w (clients s), wsUserMap := AList.update w u (wsUserMap s),
            tasks := tasks s @ [AuthGetUserChannels w u]\<rparr>)
   \<and> (userIdVar s w = Some u \<and> u \<noteq> [] \<and> no_close_of u (settle (bind_user s w)) ins \<longrightarrow>
        u \<in> set (map fst (clients (run (settle (bind_user s w)) ins)))
        \<and> userIdVar (run (settle (bind_user s w)) ins) w \<noteq> None)"
proof (intro conjI impI)
  assume "i < length (tasks s2) \<and> tasks s2 ! i = AuthGetUserChannels w u' \<and> userIdVar s2 w = Some v
      \<and> readyState s2 w = OPEN"
  then show "sent (resume (Completed g) s2 i) =
        sent s2 @ (w, OnlineUsers (map fst (clients s2))) #
          map (\<lambda>t. (t, UserOnline v)) (allTargets s2 (Some v))"
    by (simp add: resume_snapshot)
next
  assume "userIdVar s w = Some u \<and> u \<noteq> []"
  then show "settle (bind_user s w) =
          s\<lparr>clients := AList.update u w (clients s), wsUserMap := AList.update w u (wsUserMap s),
            tasks := tasks s @ [AuthGetUserChannels w u]\<rparr>"
    by (simp add: bind_user_def settle_def)
next
  assume h: "userIdVar s w = Some u \<and> u \<noteq> [] \<and> no_close_of u (settle (bind_user s w)) ins"
  then have e: "settle (bind_user s w) =
          s\<lparr>clients := AList.update u w (clients s), wsUserMap := AList.update w u (wsUserMap s),
            tasks := tasks s @ [AuthGetUserChannels w u]\<rparr>"
    by (simp add: bind_user_def settle_def)
  have "u \<in> fst ` set (clients (settle (bind_user s w)))"
    "userIdVar (settle (bind_user s w)) w \<noteq> None"
    unfolding e using h by (simp_all add: AList.dom_update)
  with h have "u \<in> fst ` set (clients (run (settle (bind_user s w)) ins))
      \<and> userIdVar (run (settle (bind_user s w)) ins) w \<noteq> None"
    by (intro run_keeps_key) simp_all
  then show "u \<in> set (map fst (clients (run (settle (bind_user s w)) ins)))"
    "userIdVar (run (settle (bind_user s w)) ins) w \<noteq> None"
    by simp_all
qed

theorem C10_witness:
  "userIdVar pair_hub 2 = Some ''b''
   \<and> no_close_of ''b'' (settle (bind_user pair_hub 2)) [Close 1]
   \<and> ''b'' \<in> set (map fst (clients (run (settle (bind_user pair_hub 2)) [Close 1])))
   \<and> sent (resume (Completed []) (run (settle (bind_user pair_hub 2)) [Close 1]) 0) =
       sent pair_hub @ [(2, UserOffline ''a''), (2, OnlineUsers [''b''])]"
proof -
  let ?s2 = "run (settle (bind_user pair_hub 2)) [Close 1]"
  have e: "?s2 = pair_hub\<lparr>clients := [(''b'', 2)], userChannels := [(''b'', {''general''})],
      wsUserMap := [(2, ''b'')],
      readyState := (\<lambda>w. if w = 1 then CLOSED else OPEN),
      sent := sent pair_hub @ [(2, UserOffline ''a'')],
      tasks := [AuthGetUserChannels 2 ''b'']\<rparr>"
    by (simp add: pair_hub_eq) (simp add: eval_defs fun_eq_iff)
  have h: "userIdVar pair_hub 2 = Some ''b'' \<and> ''b'' \<noteq> []
      \<and> no_close_of ''b'' (settle (bind_user pair_hub 2)) [Close 1]"
    by (simp add: pair_hub_eq) (simp add: eval_defs)
  have h2: "0 < length (tasks ?s2) \<and> tasks ?s2 ! 0 = AuthGetUserChannels 2 ''b''
      \<and> userIdVar ?s2 2 = Some ''b'' \<and> readyState ?s2 2 = OPEN"
    unfolding e by (simp add: pair_hub_eq)
  note t = C10_snapshot_contains_user_unless_closed
  note k = t [THEN conjunct2, THEN conjunct2, rule_format, OF h, THEN conjunct1]
  note r = t [where g = "[]", THEN conjunct1, rule_format, OF h2]
  have a: "allTargets ?s2 (Some ''b'') = []" "map fst (clients ?s2) = [''b'']"
    "sent ?s2 = sent pair_hub @ [(2, UserOffline ''a'')]"
    unfolding e by (simp_all add: allTargets_def)
  show ?thesis
    using h k unfolding r a by simp
qed

text \<open>
  The claim as stated fails: both sockets carry the session of \<open>a\<close>. Socket 1 binds;
  socket 2 binds and awaits; socket 1 closes, which deletes the registry entry of \<open>a\<close>;
  socket 2 resumes and is sent an empty list.
\<close>

theorem C10_counterexample:
  "reachable (run (init session_a demo_db)
      [Message 1 (Frame ''auth'' (Some (no_fields\<lparr>p_userId := Some ''a''\<rparr>))),
       Resume 0 (Completed []),
       Message 2 (Frame ''auth'' (Some (no_fields\<lparr>p_userId := Some ''a''\<rparr>))),
       Close 1,
       Resume 0 (Completed [])])
   \<and> sent (run (init session_a demo_db)
      [Message 1 (Frame ''auth'' (Some (no_fields\<lparr>p_userId := Some ''a''\<rparr>))),
       Resume 0 (Completed []),
       Message 2 (Frame ''auth'' (Some (no_fields\<lparr>p_userId := Some ''a''\<rparr>))),
       Close 1,
       Resume 0 (Completed [])])
     = [(1, OnlineUsers [''a'']), (2, OnlineUsers [])]
   \<and> wsUserMap (run (init session_a demo_db)
      [Message 1 (Frame ''auth'' (Some (no_fields\<lparr>p_userId := Some ''a''\<rparr>))),
       Resume 0 (Completed []),
       Message 2 (Frame ''auth'' (Some (no_fields\<lparr>p_userId := Some ''a''\<rparr>))),
       Close 1,
       Resume 0 (Completed [])]) = [(2, ''a'')]"
proof -
  have "reachable (run (init session_a demo_db)
      [Message 1 (Frame ''auth'' (Some (no_fields\<lparr>p_userId := Some ''a''\<rparr>))),
       Resume 0 (Completed []),
       Message 2 (Frame ''auth'' (Some (no_fields\<lparr>p_userId := Some ''a''\<rparr>))),
       Close 1,
       Resume 0 (Completed [])])"
    by (rule reachable_run) (rule reachable.start)
  then show ?thesis
    by (simp add: eval_defs session_a_def)
qed

section \<open>The bind block always has a user id\<close>

text \<open>
  The branch of \<open>continue\<close> for a bind block that finds \<open>userId\<close> null is never taken
  on a run of the server.
\<close>

lemma segment_ok_plain [simp]:
  "segment_ok s (Done, s)" "segment_ok s (Throw e, s)"
  "segment_ok s (Done, s\<lparr>sent := x\<rparr>)" "segment_ok s (Throw e, s\<lparr>db := d\<rparr>)"
  "segment_ok s (Done, s\<lparr>db := d, sent := x\<rparr>)"
  "segment_ok s (Done, ws_close (console_warn s m) w c r)"
  by (simp_all add: segment_ok_def ws_close_def console_warn_def)

lemma segment_ok_bind: "segment_ok s (bind_user (s\<lparr>userIdVar := v\<rparr>) w)"
  by (simp add: segment_ok_def bind_user_def split: option.splits)

lemma segment_ok_guarded:
  "(\<And>u v p. segment_ok s (body u v p)) \<Longrightarrow> segment_ok s (guarded s w pl f body)"
  by (simp add: guarded_def split: option.splits)

lemma segment_ok_auth: "segment_ok s (auth_case s w pl)"
proof (cases pl)
  case None
  then show ?thesis by (simp add: auth_case_def)
next
  case (Some p)
  have "segment_ok s (Await (AuthGetUser w (p_userId p)), s)"
    by (simp add: segment_ok_def)
  with Some show ?thesis
    by (simp add: auth_case_def Let_def segment_ok_bind)
qed

lemma segment_ok_start: "segment_ok s (message_start s w data)"
proof (cases data)
  case Malformed
  then show ?thesis by (simp add: message_start_def)
next
  case (Frame type pl)
  have a: "segment_ok s (Await t, s)" if "\<And>w u. t \<noteq> AuthGetUserChannels w u" for t
    using that by (simp add: segment_ok_def)
  show ?thesis
    unfolding Frame message_start_def
    by (simp add: segment_ok_auth segment_ok_guarded a broadcastToChannel_sent)
qed

lemma segment_ok_continue: "segment_ok s (continue r s t)"
proof (cases r)
  case Rejected
  then show ?thesis by (simp add: continue_def)
next
  case (Completed g)
  have a: "segment_ok s (Await t', s)" if "\<And>w u. t' \<noteq> AuthGetUserChannels w u" for t'
    using that by (simp add: segment_ok_def)
  show ?thesis
  proof (cases t)
    case (AuthGetUser w cid)
    with Completed show ?thesis
      by (simp add: continue_def segment_ok_bind split: option.splits)
  next
    case (AuthGetUserChannels w u)
    with Completed show ?thesis
      by (simp add: continue_def Let_def broadcastToAll_sent ws_send_def segment_ok_def
          split: option.splits)
  next
    case (TypingGetUser w u c)
    with Completed show ?thesis by (simp add: continue_def broadcastToChannel_sent)
  next
    case (SendIsMember w c u cont rep)
    with Completed show ?thesis by (simp add: continue_def a)
  next
    case (SendCreate w md)
    with Completed show ?thesis
      by (cases "createMessage g (db s) md")
         (simp add: continue_def broadcastToChannel_sent split: sum.splits)
  next
    case (ReactGetMessage w act m em)
    with Completed show ?thesis by (simp add: continue_def a split: option.splits)
  next
    case (ReactMutate w act c m u em)
    with Completed show ?thesis
      by (cases "addReaction (db s) \<lparr>ir_messageId = m, ir_userId = u, ir_emoji = em\<rparr>")
         (simp add: continue_def broadcastToChannel_sent split: action.splits option.splits)
  qed
qed

lemma settle_bound:
  assumes "segment_ok s r" and "registry_step s (snd r)" and "bind_tasks_bound s"
  shows "bind_tasks_bound (settle r)"
proof (cases r)
  case (Pair out s')
  with assms have t: "tasks s' = tasks s"
    and v: "\<And>w. userIdVar s w \<noteq> None \<Longrightarrow> userIdVar s' w \<noteq> None"
    and n: "\<And>w u. out = Await (AuthGetUserChannels w u) \<Longrightarrow> userIdVar s' w \<noteq> None"
    by (simp_all add: segment_ok_def registry_step_def)
  from assms(3) t v have b: "bind_tasks_bound s'"
    unfolding bind_tasks_bound_def by metis
  show ?thesis
  proof (cases out)
    case Done
    with Pair b show ?thesis by (simp add: settle_def)
  next
    case (Await t')
    with Pair b n show ?thesis
      by (auto simp: settle_def bind_tasks_bound_def)
  next
    case (Throw e)
    with Pair b show ?thesis by (simp add: settle_def bind_tasks_bound_def)
  qed
qed

lemma bound_step: "bind_tasks_bound s \<Longrightarrow> bind_tasks_bound (step s i)"
proof (cases i)
  case (Message w data)
  assume b: "bind_tasks_bound s"
  have "bind_tasks_bound (on_message s w data)"
    unfolding on_message_def using segment_ok_start registry_step_start b by (rule settle_bound)
  with b Message show ?thesis by simp
next
  case (Resume n r)
  assume b: "bind_tasks_bound s"
  show ?thesis
  proof (cases "n < length (tasks s)")
    case True
    let ?s0 = "s\<lparr>tasks := take n (tasks s) @ drop (Suc n) (tasks s)\<rparr>"
    have "set (tasks ?s0) \<subseteq> set (tasks s)"
      by (auto dest: in_set_takeD in_set_dropD)
    with b have "bind_tasks_bound ?s0"
      unfolding bind_tasks_bound_def by (simp del: set_append) blast
    with segment_ok_continue registry_step_continue
    have "bind_tasks_bound (settle (continue r ?s0 (tasks s ! n)))"
      by (rule settle_bound)
    with True Resume show ?thesis by (simp add: resume_def)
  next
    case False
    with b Resume show ?thesis by (simp add: resume_def)
  qed
next
  case (Close w)
  assume b: "bind_tasks_bound s"
  have "tasks (on_close s' w) = tasks s'" "userIdVar (on_close s' w) = userIdVar s'" for s'
    by (simp_all add: on_close_def broadcastToAll_sent split: option.splits)
  with b Close show ?thesis
    unfolding bind_tasks_bound_def by simp
next
  case (Route d ev)
  assume "bind_tasks_bound s"
  then show ?thesis using Route
    by (simp add: bind_tasks_bound_def broadcastToChannel_sent split: option.splits)
qed

lemma reachable_bound: "reachable s \<Longrightarrow> bind_tasks_bound s"
  by (induction rule: reachable.induct) (simp_all add: bound_step, simp add: init_def bind_tasks_bound_def)

lemma bind_block_has_user:
  assumes "reachable s" and "i < length (tasks s)" and "tasks s ! i = AuthGetUserChannels w u"
  shows "userIdVar s w \<noteq> None"
proof -
  from assms(2,3) have "AuthGetUserChannels w u \<in> set (tasks s)"
    by (metis nth_mem)
  with reachable_bound [OF assms(1)] show ?thesis
    unfolding bind_tasks_bound_def by blast
qed

end
